theory Spec2Isabelle
  imports Main "HOL-Library.Sublist"
begin

section \<open>Python values used by arris_stats.py\<close>

text \<open>
  Python strings are modelled as \<^typ>\<open>string\<close>; a \<^typ>\<open>char\<close> stands for the code
  point of the same number, so the model covers text whose code points are below 256.
  Exceptions are values of \<open>error\<close>; a computation that may raise returns
  \<open>error + 'a\<close> with \<open>Inl\<close> for the exception.
\<close>

datatype error =
    IndexError | UnboundLocalError | ValueError | TypeError | KeyError
  | UnicodeEncodeError | UnicodeDecodeError | RequestException | InfluxError

definition bindE :: "error + 'a \<Rightarrow> ('a \<Rightarrow> error + 'b) \<Rightarrow> error + 'b" where
  "bindE m f = (case m of Inl e \<Rightarrow> Inl e | Inr a \<Rightarrow> f a)"

text \<open>\<open>xs[i]\<close> for a non-negative literal index: IndexError out of range.\<close>

definition item :: "'a list \<Rightarrow> nat \<Rightarrow> error + 'a" where
  "item xs i = (if i < length xs then Inr (xs ! i) else Inl IndexError)"

subsection \<open>str.replace, the \<open>in\<close> operator, str.strip, str.isdigit\<close>

text \<open>
  \<open>s.replace(old, new)\<close> replaces every occurrence of \<open>old\<close>, scanning from the left and
  continuing after each replaced occurrence; \<open>s.replace(old, new, count)\<close> stops after
  \<open>count\<close> replacements. With an empty \<open>old\<close> Python inserts \<open>new\<close> before every
  character and at the end.
\<close>

fun replace_count :: "string \<Rightarrow> string \<Rightarrow> nat \<Rightarrow> string \<Rightarrow> string" where
  "replace_count old new 0 s = s"
| "replace_count [] new (Suc n) [] = new"
| "replace_count [] new (Suc n) (c # cs) = new @ c # replace_count [] new n cs"
| "replace_count (a # as) new (Suc n) [] = []"
| "replace_count (a # as) new (Suc n) (c # cs) =
     (if prefix (a # as) (c # cs)
      then new @ replace_count (a # as) new n (drop (length as) cs)
      else c # replace_count (a # as) new (Suc n) cs)"

fun replace :: "string \<Rightarrow> string \<Rightarrow> string \<Rightarrow> string" where
  "replace [] new [] = new"
| "replace [] new (c # cs) = new @ c # replace [] new cs"
| "replace (a # as) new [] = []"
| "replace (a # as) new (c # cs) =
     (if prefix (a # as) (c # cs)
      then new @ replace (a # as) new (drop (length as) cs)
      else c # replace (a # as) new cs)"

text \<open>\<open>sub in s\<close>: \<open>sub\<close> occurs in \<open>s\<close> as a contiguous substring.\<close>

fun contains :: "string \<Rightarrow> string \<Rightarrow> bool" where
  "contains sub [] = (sub = [])"
| "contains sub (c # cs) = (prefix sub (c # cs) \<or> contains sub cs)"

text \<open>
  The characters \<open>str.isspace\<close> accepts below code point 256: tab to carriage return,
  the four separators 28 to 31, space, NEL (133) and the no-break space (160).
\<close>

definition isspace :: "char \<Rightarrow> bool" where
  "isspace c = (let n = (of_char c :: nat) in
     (9 \<le> n \<and> n \<le> 13) \<or> (28 \<le> n \<and> n \<le> 32) \<or> n = 133 \<or> n = 160)"

definition strip :: "string \<Rightarrow> string" where
  "strip s = rev (dropWhile isspace (rev (dropWhile isspace s)))"

text \<open>
  \<open>str.isdigit\<close>: at least one character and every character a digit. Below code point
  256 the digits are \<open>0\<close> to \<open>9\<close> and the superscripts two, three and one (178, 179, 185).
\<close>

definition isdigit_char :: "char \<Rightarrow> bool" where
  "isdigit_char c = (let n = (of_char c :: nat) in
     (48 \<le> n \<and> n \<le> 57) \<or> n = 178 \<or> n = 179 \<or> n = 185)"

definition isdigit :: "string \<Rightarrow> bool" where
  "isdigit s = (s \<noteq> [] \<and> list_all isdigit_char s)"

section \<open>The channel table parser\<close>

subsection \<open>The markup repair\<close>

definition defect_pattern :: string where
  "defect_pattern = ''Bonded Channels</strong></th></tr>''"

definition defect_repaired :: string where
  "defect_repaired = ''Bonded Channels</strong></th>''"

definition repair :: "string \<Rightarrow> string" where
  "repair html = replace_count defect_pattern defect_repaired 2 html"

subsection \<open>What BeautifulSoup hands to the parser\<close>

text \<open>
  BeautifulSoup is a library outside the repository. The parser reads only this of its
  result: the list \<open>soup.find_all("table")\<close>, for a table the list \<open>find_all("tr")\<close>, and
  for a row whether \<open>table_row.th\<close> finds a header cell and the \<open>.text\<close> of each element of
  \<open>find_all('td')\<close>. A \<open>soup\<close> is that view of a parsed page.
\<close>

record table_row =
  th :: bool
  tds :: "string list"

type_synonym soup = "table_row list list"

record downstream_stat =
  d_channel_id :: string
  modulation :: string
  d_frequency :: string
  d_power :: string
  snr :: string
  corrected :: string
  uncorrectables :: string

record upstream_stat =
  u_channel_id :: string
  channel_type :: string
  u_frequency :: string
  u_power :: string

record stats =
  downstream :: "downstream_stat list"
  upstream :: "upstream_stat list"

text \<open>\<open>table_row.find_all('td')[i].text\<close>\<close>

definition td_text :: "table_row \<Rightarrow> nat \<Rightarrow> error + string" where
  "td_text r i = item (tds r) i"

subsection \<open>The two row loops\<close>

text \<open>
  The local variable \<open>channel_id\<close> is shared by both loops of \<open>parse_html_sb8200\<close>. It is
  carried through the loops as \<open>string option\<close>, \<open>None\<close> while it is still unbound; reading
  it unbound raises UnboundLocalError. The second component is the list being appended to.
\<close>

fun downstream_loop ::
  "table_row list \<Rightarrow> string option \<Rightarrow> downstream_stat list
    \<Rightarrow> error + (string option \<times> downstream_stat list)" where
  "downstream_loop [] cid acc = Inr (cid, acc)"
| "downstream_loop (r # rs) cid acc =
     (if th r then downstream_loop rs cid acc
      else bindE (td_text r 0) (\<lambda>t0.
        let channel_id = strip t0 in
        if \<not> isdigit channel_id then downstream_loop rs (Some channel_id) acc
        else
          bindE (td_text r 2) (\<lambda>t2. let modulation = strip (replace ''Other'' ''OFDM PLC'' t2) in
          bindE (td_text r 3) (\<lambda>t3. let frequency = strip (replace '' Hz'' '''' t3) in
          bindE (td_text r 4) (\<lambda>t4. let power = strip (replace '' dBmV'' '''' t4) in
          bindE (td_text r 5) (\<lambda>t5. let snr = strip (replace '' dB'' '''' t5) in
          bindE (td_text r 6) (\<lambda>t6. let corrected = strip t6 in
          bindE (td_text r 7) (\<lambda>t7. let uncorrectables = strip t7 in
            downstream_loop rs (Some channel_id)
              (acc @ [\<lparr>d_channel_id = channel_id, modulation = modulation,
                       d_frequency = frequency, d_power = power, snr = snr,
                       corrected = corrected, uncorrectables = uncorrectables\<rparr>])))))))))"

fun upstream_loop ::
  "table_row list \<Rightarrow> string option \<Rightarrow> upstream_stat list
    \<Rightarrow> error + (string option \<times> upstream_stat list)" where
  "upstream_loop [] cid acc = Inr (cid, acc)"
| "upstream_loop (r # rs) cid acc =
     (if th r then upstream_loop rs cid acc
      else (case cid of
          None \<Rightarrow> Inl UnboundLocalError
        | Some previous_id \<Rightarrow>
            if \<not> isdigit previous_id then upstream_loop rs cid acc
            else
              bindE (td_text r 1) (\<lambda>t1. let channel_id = strip t1 in
              bindE (td_text r 3) (\<lambda>t3.
                let channel_type = strip (replace ''OFDM'' ''OFDMA'' (replace '' Upstream'' '''' t3)) in
              bindE (td_text r 4) (\<lambda>t4. let frequency = strip (replace '' Hz'' '''' t4) in
              bindE (td_text r 6) (\<lambda>t6. let power = strip (replace '' dBmV'' '''' t6) in
                upstream_loop rs (Some channel_id)
                  (acc @ [\<lparr>u_channel_id = channel_id, channel_type = channel_type,
                           u_frequency = frequency, u_power = power\<rparr>])))))))"


section \<open>Numeric conversion: int() and float() on strings\<close>

text \<open>
  \<open>int(s)\<close> strips surrounding whitespace, accepts one optional sign and then decimal digits
  in which single underscores may separate digits; anything else raises ValueError. Below
  code point 256 the decimal digits are \<open>0\<close> to \<open>9\<close> only. The interpreter's limit on the
  number of digits of one conversion is not modelled.
\<close>

definition isdecimal_char :: "char \<Rightarrow> bool" where
  "isdecimal_char c = (let n = (of_char c :: nat) in 48 \<le> n \<and> n \<le> 57)"

definition digit_value :: "char \<Rightarrow> int" where
  "digit_value c = of_char c - 48"

text \<open>
  \<open>digits_rest cs (v, k)\<close> continues a digit part of which digits of value \<open>v\<close>, \<open>k\<close> in
  number, have been read; the result is the value and the number of digits of the whole part.
\<close>

fun digits_rest :: "string \<Rightarrow> int \<times> nat \<Rightarrow> (int \<times> nat) option" where
  "digits_rest [] vk = Some vk"
| "digits_rest [c] (v, k) =
     (if isdecimal_char c then Some (10 * v + digit_value c, Suc k) else None)"
| "digits_rest (c # d # ds) (v, k) =
     (if isdecimal_char c then digits_rest (d # ds) (10 * v + digit_value c, Suc k)
      else if c = CHR ''_'' \<and> isdecimal_char d
        then digits_rest ds (10 * v + digit_value d, Suc k)
      else None)"

definition digitpart :: "string \<Rightarrow> (int \<times> nat) option" where
  "digitpart s = (case s of
       [] \<Rightarrow> None
     | c # cs \<Rightarrow> if isdecimal_char c then digits_rest cs (digit_value c, 1) else None)"

text \<open>An optional leading sign: whether it is a minus, and the rest.\<close>

definition split_sign :: "string \<Rightarrow> bool \<times> string" where
  "split_sign s = (case s of
       [] \<Rightarrow> (False, [])
     | c # cs \<Rightarrow> if c = CHR ''-'' then (True, cs)
                else if c = CHR ''+'' then (False, cs) else (False, c # cs))"

definition py_int :: "string \<Rightarrow> error + int" where
  "py_int s = (let (neg, u) = split_sign (strip s) in
     case digitpart u of
       None \<Rightarrow> Inl ValueError
     | Some (v, k) \<Rightarrow> Inr (if neg then - v else v))"

text \<open>
  \<open>float(s)\<close> accepts, between stripped whitespace and after an optional sign, \<open>inf\<close>,
  \<open>infinity\<close> or \<open>nan\<close> in any letter case, or a decimal number: digit parts around an optional
  point, at least one of them present, and an optional exponent \<open>e\<close> or \<open>E\<close> with its own sign.
  The value is kept as the decimal the text denotes, \<open>Decimal neg m e\<close> for \<open>m\<close> times ten to
  the \<open>e\<close>, negated when \<open>neg\<close>; the rounding to a binary double is not modelled.
\<close>

datatype pyfloat = Decimal bool int int | Inf bool | NaN

definition lower_char :: "char \<Rightarrow> char" where
  "lower_char c = (let n = (of_char c :: nat) in
     if 65 \<le> n \<and> n \<le> 90 then char_of (n + 32) else c)"

definition digit_or_underscore :: "char \<Rightarrow> bool" where
  "digit_or_underscore c = (isdecimal_char c \<or> c = CHR ''_'')"

text \<open>The exponent after the number: absent, or \<open>e\<close>, a sign and a digit part up to the end.\<close>

definition exponent :: "string \<Rightarrow> int option" where
  "exponent s = (case s of
       [] \<Rightarrow> Some 0
     | c # cs \<Rightarrow>
         if c = CHR ''e'' \<or> c = CHR ''E'' then
           (let (neg, u) = split_sign cs in
            case digitpart u of
              None \<Rightarrow> None
            | Some (v, k) \<Rightarrow> Some (if neg then - v else v))
         else None)"

definition py_float :: "string \<Rightarrow> error + pyfloat" where
  "py_float s = (let (neg, u) = split_sign (strip s); l = map lower_char u in
     if l = ''inf'' \<or> l = ''infinity'' then Inr (Inf neg)
     else if l = ''nan'' then Inr NaN
     else
       let ip = takeWhile digit_or_underscore u;
           r1 = dropWhile digit_or_underscore u;
           point = (r1 \<noteq> [] \<and> hd r1 = CHR ''.'');
           fp = (if point then takeWhile digit_or_underscore (tl r1) else []);
           r2 = (if point then dropWhile digit_or_underscore (tl r1) else r1)
       in
       if ip = [] \<and> fp = [] then Inl ValueError
       else
         (case (if ip = [] then Some (0, 0) else digitpart ip) of
            None \<Rightarrow> Inl ValueError
          | Some (iv, ik) \<Rightarrow>
         (case (if fp = [] then Some (0, 0) else digitpart fp) of
            None \<Rightarrow> Inl ValueError
          | Some (fv, fk) \<Rightarrow>
         (case exponent r2 of
            None \<Rightarrow> Inl ValueError
          | Some e \<Rightarrow> Inr (Decimal neg (iv * 10 ^ fk + fv) (e - int fk))))))"

section \<open>base64.b64encode\<close>

definition b64_alphabet :: string where
  "b64_alphabet = ''ABCDEFGHIJKLMNOPQRSTUVWXYZabcdefghijklmnopqrstuvwxyz0123456789+/''"

definition b64_char :: "nat \<Rightarrow> char" where
  "b64_char n = b64_alphabet ! (n mod 64)"

fun b64encode :: "nat list \<Rightarrow> string" where
  "b64encode [] = []"
| "b64encode [a] = [b64_char (a div 4), b64_char ((a mod 4) * 16), CHR ''='', CHR ''='']"
| "b64encode [a, b] =
     [b64_char (a div 4), b64_char ((a mod 4) * 16 + b div 16),
      b64_char ((b mod 16) * 4), CHR ''='']"
| "b64encode (a # b # c # rest) =
     [b64_char (a div 4), b64_char ((a mod 4) * 16 + b div 16),
      b64_char ((b mod 16) * 4 + c div 64), b64_char (c mod 64)] @ b64encode rest"


section \<open>Effects: log lines, sleeps, requests, writes\<close>

text \<open>
  A point as \<open>Point.from_dict\<close> receives it: measurement name, time, fields and tags, the
  two dictionaries as association lists in the order the source writes their keys
  (\<open>fields\<close> is taken by the record package, hence the prefix).
\<close>

datatype field_value = IntV int | FloatV pyfloat | StrV string

record point =
  measurement :: string
  time :: string
  point_fields :: "(string \<times> field_value) list"
  point_tags :: "(string \<times> field_value) list"

datatype level = DEBUG | INFO | WARNING | ERROR

text \<open>
  What the process does to the outside, in order. A log line is kept as its level and its
  format string, the arguments are not interpolated; \<open>LogException\<close> is
  \<open>logging.error(exception)\<close>. \<open>HttpGet\<close> carries the URL and the cookies of a
  \<open>requests.get\<close>, \<open>InfluxWrite\<close> the bucket and the records of a \<open>write_api.write\<close>.
\<close>

datatype event =
    Log level string
  | LogException error
  | Sleep int
  | HttpGet string "(string \<times> string option) option"
  | InfluxWrite string "point list"

text \<open>
  A computation stops early when an exception propagates (\<open>Raised\<close>), when \<open>sys.exit\<close>
  is called (\<open>Exited\<close> with the status), or, in this model, when a loop asks the
  environment for one more reply than the finite list it was given holds (\<open>Starved\<close>: the
  process is still looping). Otherwise it returns a value. The events happened so far are
  kept in both cases.
\<close>

datatype stop = Raised error | Exited int | Starved

type_synonym 'a comp = "event list \<times> (stop + 'a)"

definition returnC :: "'a \<Rightarrow> 'a comp" where
  "returnC a = ([], Inr a)"

definition bindC :: "'a comp \<Rightarrow> ('a \<Rightarrow> 'b comp) \<Rightarrow> 'b comp" where
  "bindC m f = (case m of
       (tr, Inl s) \<Rightarrow> (tr, Inl s)
     | (tr, Inr a) \<Rightarrow> (case f a of (tr', r) \<Rightarrow> (tr @ tr', r)))"

definition raiseC :: "error \<Rightarrow> 'a comp" where
  "raiseC e = ([], Inl (Raised e))"

definition liftE :: "error + 'a \<Rightarrow> 'a comp" where
  "liftE m = (case m of Inl e \<Rightarrow> raiseC e | Inr a \<Rightarrow> returnC a)"

definition logC :: "level \<Rightarrow> string \<Rightarrow> unit comp" where
  "logC l msg = ([Log l msg], Inr ())"

text \<open>
  \<open>try: m except Exception as e: h e\<close>. SystemExit is not an \<open>Exception\<close>, so an exit
  passes through.
\<close>

definition catchC :: "'a comp \<Rightarrow> (error \<Rightarrow> 'a comp) \<Rightarrow> 'a comp" where
  "catchC m h = (case m of
       (tr, Inl (Raised e)) \<Rightarrow> (case h e of (tr', r) \<Rightarrow> (tr @ tr', r))
     | _ \<Rightarrow> m)"

text \<open>\<open>time.sleep(n)\<close> raises ValueError for a negative length.\<close>

definition sleepC :: "int \<Rightarrow> unit comp" where
  "sleepC n = (if n < 0 then raiseC ValueError else ([Sleep n], Inr ()))"

definition sys_exit :: "int \<Rightarrow> 'a comp" where
  "sys_exit code = ([], Inl (Exited code))"

section \<open>Configuration and the modem's replies\<close>

text \<open>The dictionary \<open>get_config\<close> returns, with the types it coerces the values to.\<close>

record config =
  arris_stats_debug :: bool
  destination :: string
  sleep_interval :: int
  modem_url :: string
  modem_verify_ssl :: bool
  modem_auth_required :: bool
  modem_new_auth :: bool
  modem_username :: string
  modem_password :: "string option"
  modem_model :: string
  exit_on_auth_error :: bool
  exit_on_html_error :: bool
  clear_auth_token_on_html_error :: bool
  sleep_before_exit :: bool
  influx_url :: string
  influx_bucket :: string
  influx_org :: "string option"
  influx_token :: "string option"
  influx_verify_ssl :: bool

text \<open>
  What one \<open>requests.get\<close> gives back: an exception (connection, TLS, ...), or a response,
  of which the source reads the status code, the reason, \<open>resp.text\<close> (field
  \<open>resp_text\<close>),
  \<open>resp.content.decode("utf-8")\<close> (\<open>None\<close> when the bytes are not UTF-8) and the cookie
  \<open>sessionId\<close> (\<open>None\<close> when the response sets none).
\<close>

record response =
  status_code :: int
  reason :: string
  resp_text :: string
  content_utf8 :: "string option"
  session_id :: "string option"

datatype reply = RequestFailed | Response response

definition requests_get ::
  "string \<Rightarrow> (string \<times> string option) option \<Rightarrow> reply \<Rightarrow> response comp" where
  "requests_get url cookies net =
     ([HttpGet url cookies],
      case net of RequestFailed \<Rightarrow> Inl (Raised RequestException) | Response resp \<Rightarrow> Inr resp)"

record credential =
  token :: string
  cookie :: "string option"

section \<open>error\_exit\<close>

definition error_exit :: "string \<Rightarrow> config option \<Rightarrow> bool \<Rightarrow> 'a comp" where
  "error_exit message config sleep =
     bindC (logC ERROR message) (\<lambda>_.
     bindC (case config of
              None \<Rightarrow> returnC ()
            | Some cfg \<Rightarrow>
                if sleep \<and> sleep_before_exit cfg then
                  bindC (logC INFO ''Sleeping for %s seconds before exiting since sleep_before_exit is True'') (\<lambda>_.
                  sleepC (sleep_interval cfg))
                else returnC ()) (\<lambda>_.
     sys_exit 1))"


section \<open>get\_credential\<close>

text \<open>
  \<open>token.encode('ascii')\<close> raises UnicodeEncodeError on a character above 127;
  \<open>username + ":" + password\<close> raises TypeError while the password is \<open>None\<close>, the
  default of the configuration. Both happen before the \<open>try\<close>.
\<close>

definition is_ascii :: "char \<Rightarrow> bool" where
  "is_ascii c = ((of_char c :: nat) < 128)"

text \<open>
  The body of the \<open>try\<close> block: \<open>None\<close> is its \<open>return None\<close>, \<open>Some (tok, ck)\<close>
  falls through to the code after the block with the source's \<open>token\<close> and \<open>cookie\<close>
  (the variable \<open>token\<close> first holds \<open>username:password\<close>, called \<open>pair\<close> here).
\<close>

definition credential_exchange ::
  "config \<Rightarrow> string \<Rightarrow> reply \<Rightarrow> (string \<times> string option) option comp" where
  "credential_exchange config auth_url net =
     bindC (requests_get auth_url None net) (\<lambda>resp.
     bindC (if modem_new_auth config then
              (case session_id resp of
                 None \<Rightarrow> raiseC KeyError
               | Some c \<Rightarrow> bindC (logC DEBUG ''cookie: %s'') (\<lambda>_. returnC (Some c)))
            else returnC None) (\<lambda>ck.
     if status_code resp \<noteq> 200 then
       bindC (logC ERROR ''Error authenticating with %s'') (\<lambda>_.
       bindC (logC ERROR ''Status code: %s'') (\<lambda>_.
       bindC (logC ERROR ''Reason: %s'') (\<lambda>_.
       returnC None)))
     else returnC (Some (resp_text resp, ck))))"

definition get_credential :: "config \<Rightarrow> reply \<Rightarrow> credential option comp" where
  "get_credential config net =
     bindC (logC INFO ''Obtaining login session from modem'') (\<lambda>_.
     let url = modem_url config; username = modem_username config in
     case modem_password config of
       None \<Rightarrow> raiseC TypeError
     | Some password \<Rightarrow>
         let pair = username @ '':'' @ password in
         if \<not> list_all is_ascii pair then raiseC UnicodeEncodeError
         else
           let auth_hash = b64encode (map of_char pair);
               auth_url = (if modem_new_auth config then url @ ''?login_'' @ auth_hash
                           else url @ ''?'' @ auth_hash)
           in
           bindC (logC DEBUG ''auth_hash: %s'') (\<lambda>_.
           bindC (logC DEBUG ''auth_url: %s'') (\<lambda>_.
           bindC (catchC (credential_exchange config auth_url net) (\<lambda>exception.
                    bindC ([LogException exception], Inr ()) (\<lambda>_.
                    bindC (logC ERROR ''Error authenticating with %s'') (\<lambda>_.
                    returnC None)))) (\<lambda>got.
           case got of
             None \<Rightarrow> returnC None
           | Some (tok, ck) \<Rightarrow>
               if contains ''Password:'' tok then
                 bindC (logC ERROR ''Authentication error, received login page.'') (\<lambda>_.
                 returnC None)
               else returnC (Some \<lparr>token = tok, cookie = ck\<rparr>)))))"

section \<open>get\_html\<close>

text \<open>\<open>credential['token']\<close>: TypeError when \<open>credential\<close> is \<open>None\<close>.\<close>

definition subscript :: "credential option \<Rightarrow> (credential \<Rightarrow> 'a) \<Rightarrow> 'a comp" where
  "subscript credential key = (case credential of
       None \<Rightarrow> raiseC TypeError
     | Some c \<Rightarrow> returnC (key c))"

text \<open>The body of the \<open>try\<close> block: \<open>None\<close> is its \<open>return None\<close>.\<close>

definition html_exchange ::
  "string \<Rightarrow> (string \<times> string option) option \<Rightarrow> reply \<Rightarrow> string option comp" where
  "html_exchange url cookies net =
     bindC (requests_get url cookies net) (\<lambda>resp.
     if status_code resp \<noteq> 200 then
       bindC (logC ERROR ''Error retreiving html from %s'') (\<lambda>_.
       bindC (logC ERROR ''Status code: %s'') (\<lambda>_.
       bindC (logC ERROR ''Reason: %s'') (\<lambda>_.
       returnC None)))
     else (case content_utf8 resp of
         None \<Rightarrow> raiseC UnicodeDecodeError
       | Some status_html \<Rightarrow> returnC (Some status_html)))"

definition get_html :: "config \<Rightarrow> credential option \<Rightarrow> reply \<Rightarrow> string option comp" where
  "get_html config credential net =
     bindC (if modem_auth_required config \<and> modem_new_auth config then
              bindC (subscript credential token) (\<lambda>t. returnC (modem_url config @ ''?ct_'' @ t))
            else returnC (modem_url config)) (\<lambda>url.
     bindC (logC DEBUG ''url: %s'') (\<lambda>_.
     bindC (if modem_auth_required config \<and> \<not> modem_new_auth config then
              bindC (subscript credential token) (\<lambda>t. returnC (Some (''credential'', Some t)))
            else if modem_auth_required config \<and> modem_new_auth config then
              bindC (subscript credential cookie) (\<lambda>c. returnC (Some (''sessionId'', c)))
            else returnC None) (\<lambda>cookies.
     bindC (logC INFO ''Retreiving stats from %s'') (\<lambda>_.
     bindC (catchC (html_exchange url cookies net) (\<lambda>exception.
              bindC ([LogException exception], Inr ()) (\<lambda>_.
              bindC (logC ERROR ''Error retreiving html from %s'') (\<lambda>_.
              returnC None)))) (\<lambda>got.
     case got of
       None \<Rightarrow> returnC None
     | Some status_html \<Rightarrow>
         if contains ''Password:'' status_html then
           bindC (logC ERROR ''Authentication error, received login page.'') (\<lambda>_.
           bindC (if \<not> modem_auth_required config then
                    logC WARNING ''You have modem_auth_required to False, but a login page was detected!''
                  else returnC ()) (\<lambda>_.
           returnC None))
         else returnC (Some status_html))))))"

section \<open>parse\_html\_sb8200\<close>

text \<open>
  The function on the view of the parsed page, and the function itself, which repairs the
  markup and hands it to BeautifulSoup; \<open>bs\<close> is \<open>BeautifulSoup(html, 'html.parser')\<close>
  as the view above.
\<close>

definition parse_soup :: "soup \<Rightarrow> stats comp" where
  "parse_soup tables =
     bindC (liftE (item tables 1)) (\<lambda>downstream_table.
     bindC (liftE (downstream_loop downstream_table None [])) (\<lambda>(channel_id, down).
     bindC (logC DEBUG ''downstream stats: %s'') (\<lambda>_.
     bindC (if down = [] then
              logC ERROR ''Failed to get any downstream stats! Probably a parsing issue in parse_html_sb8200()''
            else returnC ()) (\<lambda>_.
     bindC (liftE (item tables 2)) (\<lambda>upstream_table.
     bindC (liftE (upstream_loop upstream_table channel_id [])) (\<lambda>(channel_id', up).
     bindC (logC DEBUG ''upstream stats: %s'') (\<lambda>_.
     bindC (if up = [] then
              logC ERROR ''Failed to get any upstream stats! Probably a parsing issue in parse_html_sb8200()''
            else returnC ()) (\<lambda>_.
     returnC \<lparr>downstream = down, upstream = up\<rparr>))))))))"

definition parse_html_sb8200 :: "(string \<Rightarrow> soup) \<Rightarrow> string \<Rightarrow> stats comp" where
  "parse_html_sb8200 bs html =
     bindC (logC INFO ''Parsing HTML for modem model sb8200'') (\<lambda>_.
     parse_soup (bs (repair html)))"


section \<open>send\_to\_influx\<close>

text \<open>
  The argument of \<open>Point.from_dict\<close> for one record. The conversions run in the order of
  the dictionary display; the first that fails raises ValueError.
\<close>

definition downstream_point :: "string \<Rightarrow> downstream_stat \<Rightarrow> error + point" where
  "downstream_point current_time stats_down =
     bindE (py_int (d_frequency stats_down)) (\<lambda>frequency_v.
     bindE (py_float (d_power stats_down)) (\<lambda>power_v.
     bindE (py_float (snr stats_down)) (\<lambda>snr_v.
     bindE (py_int (corrected stats_down)) (\<lambda>corrected_v.
     bindE (py_int (uncorrectables stats_down)) (\<lambda>uncorrectables_v.
     bindE (py_int (d_channel_id stats_down)) (\<lambda>channel_id_v.
     Inr \<lparr>measurement = ''downstream_statistics'',
          time = current_time,
          point_fields = [(''frequency'', IntV frequency_v), (''power'', FloatV power_v),
                          (''snr'', FloatV snr_v), (''corrected'', IntV corrected_v),
                          (''uncorrectables'', IntV uncorrectables_v)],
          point_tags = [(''channel_id'', IntV channel_id_v),
                        (''modulation'', StrV (modulation stats_down))]\<rparr>))))))"

definition upstream_point :: "string \<Rightarrow> upstream_stat \<Rightarrow> error + point" where
  "upstream_point current_time stats_up =
     bindE (py_int (u_frequency stats_up)) (\<lambda>frequency_v.
     bindE (py_float (u_power stats_up)) (\<lambda>power_v.
     bindE (py_int (u_channel_id stats_up)) (\<lambda>channel_id_v.
     Inr \<lparr>measurement = ''upstream_statistics'',
          time = current_time,
          point_fields = [(''frequency'', IntV frequency_v), (''power'', FloatV power_v)],
          point_tags = [(''channel_id'', IntV channel_id_v),
                        (''channel_type'', StrV (channel_type stats_up))]\<rparr>)))"

text \<open>The two \<open>for\<close> loops appending to \<open>series\<close>.\<close>

fun downstream_series ::
  "string \<Rightarrow> downstream_stat list \<Rightarrow> point list \<Rightarrow> error + point list" where
  "downstream_series current_time [] series = Inr series"
| "downstream_series current_time (stats_down # rest) series =
     bindE (downstream_point current_time stats_down) (\<lambda>p.
     downstream_series current_time rest (series @ [p]))"

fun upstream_series ::
  "string \<Rightarrow> upstream_stat list \<Rightarrow> point list \<Rightarrow> error + point list" where
  "upstream_series current_time [] series = Inr series"
| "upstream_series current_time (stats_up # rest) series =
     bindE (upstream_point current_time stats_up) (\<lambda>p.
     upstream_series current_time rest (series @ [p]))"

text \<open>
  \<open>current_time\<close> is \<open>datetime.utcnow().strftime(...)\<close>, read once; \<open>sink_accepts\<close> says
  whether \<open>write_api.write\<close> returns (otherwise it raises). Building the client is not
  modelled. \<open>logging.error(Exception)\<close> logs the class itself.
\<close>

definition influx_write :: "string \<Rightarrow> point list \<Rightarrow> bool \<Rightarrow> unit comp" where
  "influx_write bucket series sink_accepts =
     ([InfluxWrite bucket series], if sink_accepts then Inr () else Inl (Raised InfluxError))"

definition send_to_influx :: "stats \<Rightarrow> config \<Rightarrow> string \<Rightarrow> bool \<Rightarrow> unit comp" where
  "send_to_influx sts config current_time sink_accepts =
     bindC (logC INFO ''Sending stats to InfluxDB (%s)'') (\<lambda>_.
     bindC (liftE (downstream_series current_time (downstream sts) [])) (\<lambda>series.
     bindC (liftE (upstream_series current_time (upstream sts) series)) (\<lambda>series.
     bindC (catchC
              (bindC (influx_write (influx_bucket config) series sink_accepts) (\<lambda>_.
               returnC True))
              (\<lambda>_. bindC (logC ERROR ''<class Exception>'') (\<lambda>_.
                    bindC (logC ERROR ''Failed To Write To InfluxDB'') (\<lambda>_.
                    returnC False)))) (\<lambda>written.
     if \<not> written then returnC ()
     else
       bindC (logC INFO ''Successfully wrote data to InfluxDB'') (\<lambda>_.
       bindC (logC DEBUG ''Influx series sent to db:'') (\<lambda>_.
       logC DEBUG ''<series>''))))))"

section \<open>main\<close>

text \<open>
  What the outside supplies to one pass of the \<open>while True\<close> loop: the replies to the
  authentication requests of that pass, in order, the reply to the status page request,
  BeautifulSoup, the clock and the sink.
\<close>

record env =
  auth_replies :: "reply list"
  html_reply :: reply
  bs4 :: "string \<Rightarrow> soup"
  utcnow :: string
  sink_accepts :: bool

text \<open>
  The inner loop \<open>while not credential\<close>. A credential is a dictionary of two keys, hence
  true. The loop has no bound of its own: it ends \<open>Starved\<close> when it needs a reply beyond
  the list.
\<close>

fun auth_loop :: "config \<Rightarrow> reply list \<Rightarrow> credential option \<Rightarrow> credential option comp" where
  "auth_loop config replies (Some c) = returnC (Some c)"
| "auth_loop config [] None = ([], Inl Starved)"
| "auth_loop config (net # replies) None =
     bindC (get_credential config net) (\<lambda>credential.
     bindC (if credential = None \<and> exit_on_auth_error config then
              error_exit ''Unable to authenticate with modem.  Exiting since exit_on_auth_error is True''
                (Some config) True
            else returnC ()) (\<lambda>_.
     bindC (if credential = None then
              bindC (logC INFO ''Unable to obtain valid login session, sleeping for: %ss'') (\<lambda>_.
              sleepC (sleep_interval config))
            else returnC ()) (\<lambda>_.
     auth_loop config replies credential)))"

text \<open>
  One pass of the \<open>while True\<close> loop, from the sleep at its top to a \<open>continue\<close> or the
  end of the body; the value is \<open>credential\<close> as the next pass finds it. \<open>not html\<close>
  holds for \<open>None\<close> and for the empty string.
\<close>

definition cycle :: "config \<Rightarrow> env \<Rightarrow> bool \<Rightarrow> credential option \<Rightarrow> credential option comp" where
  "cycle config e first credential =
     bindC (if \<not> first then
              bindC (logC INFO ''Sleeping for %s seconds'') (\<lambda>_.
              sleepC (sleep_interval config))
            else returnC ()) (\<lambda>_.
     bindC (if modem_auth_required config then auth_loop config (auth_replies e) credential
            else returnC credential) (\<lambda>credential.
     bindC (get_html config credential (html_reply e)) (\<lambda>html.
     if html = None \<or> html = Some [] then
       bindC (if exit_on_html_error config then
                error_exit ''No HTML obtained from modem.  Exiting since exit_on_html_error is True''
                  (Some config) True
              else returnC ()) (\<lambda>_.
       bindC (logC ERROR ''No HTML to parse, giving up until next interval'') (\<lambda>_.
       if clear_auth_token_on_html_error config then
         bindC (logC INFO ''clear_auth_token_on_html_error is true, clearing credential token'') (\<lambda>_.
         returnC None)
       else returnC credential))
     else
       bindC (if modem_model config = ''sb8200'' then parse_html_sb8200 (bs4 e) (the html)
              else error_exit ''Modem model %s not supported!  Aborting'' None False) (\<lambda>sts.
       if upstream sts = [] \<and> downstream sts = [] then
         bindC (logC ERROR ''Failed to get any stats, giving up until next interval'') (\<lambda>_.
         returnC credential)
       else
         bindC (if destination config = ''influxdb'' then
                  send_to_influx sts config (utcnow e) (sink_accepts e)
                else error_exit ''Destination %s not supported!  Aborting.'' None False) (\<lambda>_.
         returnC credential)))))"



section \<open>Derived notions and sample data\<close>

text \<open>The record each loop appends for a row that it accepts, as the loop body builds it.\<close>

definition downstream_of :: "table_row \<Rightarrow> downstream_stat" where
  "downstream_of r = \<lparr>d_channel_id = strip (tds r ! 0),
       modulation = strip (replace ''Other'' ''OFDM PLC'' (tds r ! 2)),
       d_frequency = strip (replace '' Hz'' '''' (tds r ! 3)),
       d_power = strip (replace '' dBmV'' '''' (tds r ! 4)),
       snr = strip (replace '' dB'' '''' (tds r ! 5)),
       corrected = strip (tds r ! 6),
       uncorrectables = strip (tds r ! 7)\<rparr>"

definition upstream_of :: "table_row \<Rightarrow> upstream_stat" where
  "upstream_of r = \<lparr>u_channel_id = strip (tds r ! 1),
       channel_type = strip (replace ''OFDM'' ''OFDMA'' (replace '' Upstream'' '''' (tds r ! 3))),
       u_frequency = strip (replace '' Hz'' '''' (tds r ! 4)),
       u_power = strip (replace '' dBmV'' '''' (tds r ! 6))\<rparr>"

text \<open>
  The log of a parse that returns: the two debug lines, each followed by the error line of
  its direction when that direction's list is empty.
\<close>

definition parse_log :: "stats \<Rightarrow> event list" where
  "parse_log st =
     [Log DEBUG ''downstream stats: %s''] @
     (if downstream st = [] then
        [Log ERROR ''Failed to get any downstream stats! Probably a parsing issue in parse_html_sb8200()'']
      else []) @
     [Log DEBUG ''upstream stats: %s''] @
     (if upstream st = [] then
        [Log ERROR ''Failed to get any upstream stats! Probably a parsing issue in parse_html_sb8200()'']
      else [])"

text \<open>
  \<open>starts_in pat a\<close>: in a text that begins with \<open>a\<close> followed by \<open>pat\<close>, an occurrence
  of \<open>pat\<close> starts inside \<open>a\<close>.
\<close>

definition starts_in :: "string \<Rightarrow> string \<Rightarrow> bool" where
  "starts_in pat a = list_ex (\<lambda>i. prefix pat (drop i (a @ pat))) [0..<length a]"

text \<open>Rows as the status page of an SB8200 has them, and rows that firmwares add.\<close>

definition header_row :: table_row where
  "header_row = \<lparr>th = True, tds = []\<rparr>"

definition down_row :: table_row where
  "down_row = \<lparr>th = False,
     tds = [''1'', ''Locked'', ''QAM256'', ''600000000 Hz'', ''1.2 dBmV'', ''38.1 dB'', ''10'', ''0'']\<rparr>"

definition down_row_other :: table_row where
  "down_row_other = \<lparr>th = False,
     tds = [''33'', ''Locked'', ''Other'', ''722000000 Hz'', ''2.0 dBmV'', ''37.0 dB'', ''5'', ''0'']\<rparr>"

definition down_heading :: table_row where
  "down_heading = \<lparr>th = False,
     tds = [''Channel ID'', ''Lock Status'', ''Modulation'', ''Frequency'', ''Power'', ''SNR/MER'',
            ''Corrected'', ''Uncorrectables'']\<rparr>"

definition up_row :: table_row where
  "up_row = \<lparr>th = False,
     tds = [''1'', ''2'', ''Locked'', ''OFDM Upstream'', ''36500000 Hz'', ''6400000 Hz'', ''44.0 dBmV'']\<rparr>"

definition up_heading :: table_row where
  "up_heading = \<lparr>th = False,
     tds = [''Channel'', ''Channel ID'', ''Lock Status'', ''US Channel Type'', ''Frequency'', ''Width'',
            ''Power'']\<rparr>"

text \<open>
  The text of status pages as the modem serves them, with the extra \<open></tr>\<close> after each of
  the two headers: the page of a modem with two downstream channels and one upstream
  channel, the same page when no upstream channel is bonded, and the same page cut off
  after the downstream table.
\<close>

definition startup_html :: string where
  "startup_html = ''<html><body><table><tr><th colspan=2><strong>Startup Procedure</strong></th></tr><tr><td>Connectivity State</td><td>OK</td></tr></table>''"

definition downstream_html :: string where
  "downstream_html = ''<table><tr><th colspan=8><strong>Downstream Bonded Channels</strong></th></tr><tr><td>1</td><td>Locked</td><td>QAM256</td><td>600000000 Hz</td><td>1.2 dBmV</td><td>38.1 dB</td><td>10</td><td>0</td></tr><tr><td>33</td><td>Locked</td><td>Other</td><td>722000000 Hz</td><td>2.0 dBmV</td><td>37.0 dB</td><td>5</td><td>0</td></tr></table>''"

definition upstream_html :: string where
  "upstream_html = ''<table><tr><th colspan=7><strong>Upstream Bonded Channels</strong></th></tr><tr><td>1</td><td>2</td><td>Locked</td><td>OFDM Upstream</td><td>36500000 Hz</td><td>6400000 Hz</td><td>44.0 dBmV</td></tr></table>''"

definition upstream_idle_html :: string where
  "upstream_idle_html = ''<table><tr><th colspan=7><strong>Upstream Bonded Channels</strong></th></tr></table>''"

definition status_page :: string where
  "status_page = startup_html @ downstream_html @ upstream_html @ ''</body></html>''"

definition upstream_idle_page :: string where
  "upstream_idle_page = startup_html @ downstream_html @ upstream_idle_html @ ''</body></html>''"

definition downstream_only_page :: string where
  "downstream_only_page = startup_html @ downstream_html @ ''</body></html>''"

text \<open>The tables and rows of these pages, in the order of the text.\<close>

definition startup_table :: "table_row list" where
  "startup_table = [header_row, \<lparr>th = False, tds = [''Connectivity State'', ''OK'']\<rparr>]"

definition status_tables :: soup where
  "status_tables = [startup_table, [header_row, down_row, down_row_other], [header_row, up_row]]"

definition upstream_idle_tables :: soup where
  "upstream_idle_tables = [startup_table, [header_row, down_row, down_row_other], [header_row]]"

definition downstream_only_tables :: soup where
  "downstream_only_tables = [startup_table, [header_row, down_row, down_row_other]]"

text \<open>
  BeautifulSoup as far as one page is known: of the repaired text of \<open>page\<close> it returns
  \<open>tables\<close>, of any other text no table. \<open>sample_bs\<close> knows the status page.
\<close>

definition page_bs :: "string \<Rightarrow> soup \<Rightarrow> string \<Rightarrow> soup" where
  "page_bs page tables html = (if html = repair page then tables else [])"

definition sample_bs :: "string \<Rightarrow> soup" where
  "sample_bs = page_bs status_page status_tables"



definition sample_html :: string where
  "sample_html = ''<table><tr><th colspan=8><strong>Downstream Bonded Channels</strong></th></tr><tr><td>1</td></tr></table><table><tr><th colspan=7><strong>Upstream Bonded Channels</strong></th></tr></table>''"

definition sample_stats :: stats where
  "sample_stats = \<lparr>downstream = [downstream_of down_row, downstream_of down_row_other],
                    upstream = [upstream_of up_row]\<rparr>"



text \<open>
  The three ways an authentication attempt is rejected: the request raises, the status is
  not 200, the body holds the marker of the login page.
\<close>

definition auth_rejected :: "reply \<Rightarrow> bool" where
  "auth_rejected net = (case net of
       RequestFailed \<Rightarrow> True
     | Response resp \<Rightarrow> status_code resp \<noteq> 200 \<or> contains ''Password:'' (resp_text resp))"


text \<open>The dictionary \<open>default_config\<close> of \<open>get_config\<close>.\<close>

definition default_config :: config where
  "default_config = \<lparr>
     arris_stats_debug = False,
     destination = ''influxdb'',
     sleep_interval = 300,
     modem_url = ''https://192.168.100.1/cmconnectionstatus.html'',
     modem_verify_ssl = False,
     modem_auth_required = False,
     modem_new_auth = False,
     modem_username = ''admin'',
     modem_password = None,
     modem_model = ''sb8200'',
     exit_on_auth_error = True,
     exit_on_html_error = True,
     clear_auth_token_on_html_error = True,
     sleep_before_exit = True,
     influx_url = ''http://localhost:8086'',
     influx_bucket = ''cable_modem_stats'',
     influx_org = None,
     influx_token = None,
     influx_verify_ssl = True\<rparr>"


definition login_reply :: reply where
  "login_reply = Response \<lparr>status_code = 200, reason = ''OK'',
     resp_text = ''<html><body>Username: <input> Password: <input></body></html>'',
     content_utf8 = Some ''<html><body>Username: <input> Password: <input></body></html>'',
     session_id = None\<rparr>"

definition error_reply :: reply where
  "error_reply = Response \<lparr>status_code = 500, reason = ''Internal Server Error'', resp_text = '''',
     content_utf8 = Some '''', session_id = None\<rparr>"

definition token_reply :: reply where
  "token_reply = Response \<lparr>status_code = 200, reason = ''OK'', resp_text = ''0123456789abcdef'',
     content_utf8 = Some ''0123456789abcdef'', session_id = Some ''s1''\<rparr>"

text \<open>One pass of the loop in which the modem answers with \<open>net\<close>.\<close>

definition sample_env :: "reply \<Rightarrow> env" where
  "sample_env net = \<lparr>auth_replies = [], html_reply = net, bs4 = sample_bs,
     utcnow = ''2021-03-04T05:06:07Z'', sink_accepts = True\<rparr>"


text \<open>The batches handed to \<open>write_api.write\<close>, in order.\<close>

definition written_batches :: "event list \<Rightarrow> point list list" where
  "written_batches tr = concat (map (\<lambda>ev. case ev of InfluxWrite b series \<Rightarrow> [series] | _ \<Rightarrow> []) tr)"

text \<open>The login page sent together with a session cookie.\<close>

definition login_reply_with_cookie :: reply where
  "login_reply_with_cookie = Response \<lparr>status_code = 200, reason = ''OK'',
     resp_text = ''<html><body>Username: <input> Password: <input></body></html>'',
     content_utf8 = Some ''<html><body>Username: <input> Password: <input></body></html>'',
     session_id = Some ''s0''\<rparr>"

text \<open>The default configuration with a password, for each of the two authentication modes.\<close>

definition basic_auth_config :: config where
  "basic_auth_config =
     default_config\<lparr>modem_auth_required := True, modem_password := Some ''secret''\<rparr>"

definition session_auth_config :: config where
  "session_auth_config =
     default_config\<lparr>modem_auth_required := True, modem_new_auth := True,
       modem_password := Some ''secret''\<rparr>"



section \<open>Properties\<close>

subsection \<open>Unfolding one row of each loop\<close>

lemma downstream_step:
  "downstream_loop (r # rs) cid acc =
     (if th r then downstream_loop rs cid acc
      else if tds r = [] then Inl IndexError
      else if \<not> isdigit (strip (tds r ! 0)) then downstream_loop rs (Some (strip (tds r ! 0))) acc
      else if length (tds r) < 8 then Inl IndexError
      else downstream_loop rs (Some (strip (tds r ! 0))) (acc @ [downstream_of r]))"
  by (auto simp: td_text_def item_def bindE_def Let_def downstream_of_def)

lemma upstream_step:
  "upstream_loop (r # rs) cid acc =
     (if th r then upstream_loop rs cid acc
      else case cid of None \<Rightarrow> Inl UnboundLocalError
      | Some p \<Rightarrow>
        if \<not> isdigit p then upstream_loop rs cid acc
        else if length (tds r) < 7 then Inl IndexError
        else upstream_loop rs (Some (strip (tds r ! 1))) (acc @ [upstream_of r]))"
  by (auto simp: td_text_def item_def bindE_def Let_def upstream_of_def split: option.splits)

declare downstream_loop.simps(2) [simp del] upstream_loop.simps(2) [simp del]

subsection \<open>What the loops append\<close>

lemma downstream_loop_acc:
  "downstream_loop rs cid acc = Inr (cid', acc') \<Longrightarrow>
     \<exists>new. acc' = acc @ new \<and>
       (new = [] \<longrightarrow> cid' = cid \<or> (\<exists>c. cid' = Some c \<and> \<not> isdigit c)) \<and>
       (\<forall>d\<in>set new. \<exists>r\<in>set rs. \<not> th r \<and> 8 \<le> length (tds r)
           \<and> isdigit (strip (tds r ! 0)) \<and> d = downstream_of r)"
proof (induction rs arbitrary: cid acc)
  case Nil
  then show ?case by simp
next
  case (Cons r rs)
  note step = Cons.prems[unfolded downstream_step]
  consider (hdr) "th r"
    | (nodigit) "\<not> th r" "tds r \<noteq> []" "\<not> isdigit (strip (tds r ! 0))"
    | (row) "\<not> th r" "tds r \<noteq> []" "isdigit (strip (tds r ! 0))" "\<not> length (tds r) < 8"
    using step by (auto split: if_splits)
  then show ?case
  proof cases
    case hdr
    with step have "downstream_loop rs cid acc = Inr (cid', acc')" by simp
    from Cons.IH[OF this] show ?thesis by auto
  next
    case nodigit
    with step have "downstream_loop rs (Some (strip (tds r ! 0))) acc = Inr (cid', acc')" by simp
    from Cons.IH[OF this] nodigit show ?thesis by auto
  next
    case row
    with step have
      "downstream_loop rs (Some (strip (tds r ! 0))) (acc @ [downstream_of r]) = Inr (cid', acc')"
      by simp
    from Cons.IH[OF this] obtain new where
      n: "acc' = (acc @ [downstream_of r]) @ new"
         "\<forall>d\<in>set new. \<exists>r\<in>set rs. \<not> th r \<and> 8 \<le> length (tds r)
             \<and> isdigit (strip (tds r ! 0)) \<and> d = downstream_of r"
      by auto
    show ?thesis
    proof (intro exI[of _ "downstream_of r # new"] conjI)
      show "acc' = acc @ downstream_of r # new" using n(1) by simp
      show "downstream_of r # new = [] \<longrightarrow> cid' = cid \<or> (\<exists>c. cid' = Some c \<and> \<not> isdigit c)"
        by simp
      show "\<forall>d\<in>set (downstream_of r # new). \<exists>r\<in>set (r # rs). \<not> th r \<and> 8 \<le> length (tds r)
              \<and> isdigit (strip (tds r ! 0)) \<and> d = downstream_of r"
        using n(2) row by auto
    qed
  qed
qed

lemma upstream_loop_acc:
  "upstream_loop rs cid acc = Inr (cid', acc') \<Longrightarrow>
     \<exists>new. acc' = acc @ new \<and>
       (new \<noteq> [] \<longrightarrow> (\<exists>p. cid = Some p \<and> isdigit p)) \<and>
       (\<forall>u\<in>set new. \<exists>r\<in>set rs. \<not> th r \<and> 7 \<le> length (tds r) \<and> u = upstream_of r)"
proof (induction rs arbitrary: cid acc)
  case Nil
  then show ?case by simp
next
  case (Cons r rs)
  note step = Cons.prems[unfolded upstream_step]
  consider (hdr) "th r"
    | (nodigit) p where "\<not> th r" "cid = Some p" "\<not> isdigit p"
    | (row) p where "\<not> th r" "cid = Some p" "isdigit p" "\<not> length (tds r) < 7"
    using step by (auto split: if_splits option.splits)
  then show ?case
  proof cases
    case hdr
    with step have "upstream_loop rs cid acc = Inr (cid', acc')" by simp
    from Cons.IH[OF this] show ?thesis by auto
  next
    case nodigit
    with step have "upstream_loop rs cid acc = Inr (cid', acc')" by simp
    from Cons.IH[OF this] nodigit show ?thesis by auto
  next
    case row
    with step have
      "upstream_loop rs (Some (strip (tds r ! 1))) (acc @ [upstream_of r]) = Inr (cid', acc')"
      by simp
    from Cons.IH[OF this] obtain new where
      n: "acc' = (acc @ [upstream_of r]) @ new"
         "\<forall>u\<in>set new. \<exists>r\<in>set rs. \<not> th r \<and> 7 \<le> length (tds r) \<and> u = upstream_of r"
      by auto
    show ?thesis
    proof (intro exI[of _ "upstream_of r # new"] conjI)
      show "acc' = acc @ upstream_of r # new" using n(1) by simp
      show "upstream_of r # new \<noteq> [] \<longrightarrow> (\<exists>p. cid = Some p \<and> isdigit p)" using row by simp
      show "\<forall>u\<in>set (upstream_of r # new). \<exists>r\<in>set (r # rs). \<not> th r \<and> 7 \<le> length (tds r)
              \<and> u = upstream_of r"
        using n(2) row by auto
    qed
  qed
qed

subsection \<open>When the loops return\<close>

lemma downstream_loop_returns:
  "\<forall>r\<in>set rs. \<not> th r \<longrightarrow> tds r \<noteq> [] \<and> (isdigit (strip (tds r ! 0)) \<longrightarrow> 8 \<le> length (tds r))
   \<Longrightarrow> \<exists>cid' acc'. downstream_loop rs cid acc = Inr (cid', acc')
        \<and> (cid' = None \<longrightarrow> cid = None \<and> (\<forall>r\<in>set rs. th r))"
proof (induction rs arbitrary: cid acc)
  case Nil
  then show ?case by simp
next
  case (Cons r rs)
  from Cons.prems have rest:
    "\<forall>r\<in>set rs. \<not> th r \<longrightarrow> tds r \<noteq> [] \<and> (isdigit (strip (tds r ! 0)) \<longrightarrow> 8 \<le> length (tds r))"
    by simp
  show ?case
  proof (cases "th r")
    case True
    with Cons.IH[OF rest, of cid acc] show ?thesis by (simp add: downstream_step)
  next
    case False
    with Cons.prems have ne: "tds r \<noteq> []" by simp
    show ?thesis
    proof (cases "isdigit (strip (tds r ! 0))")
      case d: False
      from Cons.IH[OF rest, of "Some (strip (tds r ! 0))" acc]
      show ?thesis using False ne d by (auto simp: downstream_step)
    next
      case d: True
      with Cons.prems False have len: "8 \<le> length (tds r)" by simp
      from Cons.IH[OF rest, of "Some (strip (tds r ! 0))" "acc @ [downstream_of r]"]
      show ?thesis using False ne d len by (auto simp: downstream_step)
    qed
  qed
qed

lemma upstream_loop_returns:
  "\<forall>r\<in>set rs. \<not> th r \<longrightarrow> 7 \<le> length (tds r)
   \<Longrightarrow> \<exists>cid' acc'. upstream_loop rs (Some p) acc = Inr (cid', acc')"
proof (induction rs arbitrary: p acc)
  case Nil
  then show ?case by simp
next
  case (Cons r rs)
  from Cons.prems have rest: "\<forall>r\<in>set rs. \<not> th r \<longrightarrow> 7 \<le> length (tds r)" by simp
  show ?case
  proof (cases "th r \<or> \<not> isdigit p")
    case True
    with Cons.IH[OF rest, of p acc] show ?thesis by (auto simp: upstream_step)
  next
    case False
    with Cons.prems have len: "7 \<le> length (tds r)" by simp
    from Cons.IH[OF rest, of "strip (tds r ! 1)" "acc @ [upstream_of r]"]
    show ?thesis using False len by (auto simp: upstream_step)
  qed
qed

subsection \<open>The result of parse\_soup\<close>

lemma parse_soup_eq:
  "parse_soup tables =
     (if length tables \<le> 1 then ([], Inl (Raised IndexError))
      else case downstream_loop (tables ! 1) None [] of
          Inl e \<Rightarrow> ([], Inl (Raised e))
        | Inr (cid, down) \<Rightarrow>
            if length tables \<le> 2 then
              (take (if down = [] then 2 else 1) (parse_log \<lparr>downstream = down, upstream = []\<rparr>),
               Inl (Raised IndexError))
            else case upstream_loop (tables ! 2) cid [] of
                Inl e \<Rightarrow>
                  (take (if down = [] then 2 else 1) (parse_log \<lparr>downstream = down, upstream = []\<rparr>),
                   Inl (Raised e))
              | Inr (cid', up) \<Rightarrow>
                  (parse_log \<lparr>downstream = down, upstream = up\<rparr>,
                   Inr \<lparr>downstream = down, upstream = up\<rparr>))"
  by (auto simp: parse_soup_def bindC_def liftE_def item_def raiseC_def returnC_def logC_def
        parse_log_def split: sum.splits prod.splits)

text \<open>
  The upstream loop tests the \<open>channel_id\<close> left by the row before, so after a downstream
  loop that appended nothing it appends nothing either: the variable is unbound or holds
  the text that was just rejected.
\<close>

lemma empty_downstream_empties_upstream:
  assumes "snd (parse_soup tables) = Inr st" and "downstream st = []"
  shows "upstream st = []"
proof -
  from assms(1) obtain cid down cid' up where
    d: "downstream_loop (tables ! 1) None [] = Inr (cid, down)" and
    u: "upstream_loop (tables ! 2) cid [] = Inr (cid', up)" and
    st: "st = \<lparr>downstream = down, upstream = up\<rparr>"
    by (auto simp: parse_soup_eq split: if_splits sum.splits prod.splits)
  from st assms(2) have "down = []" by simp
  with downstream_loop_acc[OF d] have c: "cid = None \<or> (\<exists>c. cid = Some c \<and> \<not> isdigit c)" by auto
  from upstream_loop_acc[OF u] c have "up = []" by auto
  with st show ?thesis by simp
qed

subsection \<open>Claims about the parser\<close>

text \<open>
  C1. The claim: a non-header row of the upstream table is included exactly when its own
  channel-id cell is a string of digits. The code tests \<open>channel_id\<close> before assigning it
  from the row. On a page with one downstream row of id 1 and an upstream table with a
  heading row without header cells followed by a channel row, the heading row is included
  (the test saw the downstream id 1) and the channel row with id 2 is skipped (the test saw
  the text \<open>Channel ID\<close>).
\<close>

theorem upstream_filter_reads_previous_row:
  "snd (parse_soup [[], [header_row, down_row], [header_row, up_heading, up_row]]) =
     Inr \<lparr>downstream = [\<lparr>d_channel_id = ''1'', modulation = ''QAM256'', d_frequency = ''600000000'',
                          d_power = ''1.2'', snr = ''38.1'', corrected = ''10'', uncorrectables = ''0''\<rparr>],
          upstream = [\<lparr>u_channel_id = ''Channel ID'', channel_type = ''US Channel Type'',
                        u_frequency = ''Frequency'', u_power = ''Power''\<rparr>]\<rparr>"
  by code_simp

text \<open>
  C2. The claim: when the downstream table gives no row and the upstream table has a valid
  row, parsing returns an empty downstream list and a non-empty upstream list. With a
  downstream table of header rows only, the upstream loop reads the unbound \<open>channel_id\<close>
  and the parser raises; with a downstream table whose only other row is a heading row, the
  valid upstream row is skipped and both lists are empty.
\<close>

theorem upstream_lost_without_downstream:
  "snd (parse_soup [[], [header_row], [header_row, up_row]]) = Inl (Raised UnboundLocalError) \<and>
   snd (parse_soup [[], [header_row, down_heading], [header_row, up_row]]) =
     Inr \<lparr>downstream = [], upstream = []\<rparr>"
  by code_simp

subsection \<open>The records of a page whose rows are channel rows\<close>

lemma downstream_loop_error: "downstream_loop rs cid acc = Inl e \<Longrightarrow> e = IndexError"
proof (induction rs arbitrary: cid acc)
  case Nil
  then show ?case by simp
next
  case (Cons r rs)
  from Cons.prems show ?case
    unfolding downstream_step by (auto split: if_splits dest: Cons.IH)
qed

lemma downstream_loop_rows:
  "\<forall>r\<in>set rs. \<not> th r \<longrightarrow> tds r \<noteq> [] \<and> (isdigit (strip (tds r ! 0)) \<longrightarrow> 8 \<le> length (tds r))
   \<Longrightarrow> downstream_loop rs cid acc =
         Inr (if filter (\<lambda>r. \<not> th r) rs = [] then cid
              else Some (strip (tds (last (filter (\<lambda>r. \<not> th r) rs)) ! 0)),
              acc @ map downstream_of (filter (\<lambda>r. \<not> th r \<and> isdigit (strip (tds r ! 0))) rs))"
proof (induction rs arbitrary: cid acc)
  case Nil
  then show ?case by simp
next
  case (Cons r rs)
  from Cons.prems have rest:
    "\<forall>r\<in>set rs. \<not> th r \<longrightarrow> tds r \<noteq> [] \<and> (isdigit (strip (tds r ! 0)) \<longrightarrow> 8 \<le> length (tds r))"
    by simp
  show ?case
  proof (cases "th r")
    case True
    with Cons.IH[OF rest, of cid acc] show ?thesis by (simp add: downstream_step)
  next
    case False
    with Cons.prems have ne: "tds r \<noteq> []" by simp
    show ?thesis
    proof (cases "isdigit (strip (tds r ! 0))")
      case d: False
      from Cons.IH[OF rest, of "Some (strip (tds r ! 0))" acc]
      show ?thesis using False ne d by (simp add: downstream_step)
    next
      case d: True
      with Cons.prems False have len: "8 \<le> length (tds r)" by simp
      from Cons.IH[OF rest, of "Some (strip (tds r ! 0))" "acc @ [downstream_of r]"]
      show ?thesis using False ne d len by (simp add: downstream_step)
    qed
  qed
qed

lemma upstream_loop_rows:
  "isdigit p \<Longrightarrow>
   \<forall>r\<in>set rs. \<not> th r \<longrightarrow> 7 \<le> length (tds r) \<and> isdigit (strip (tds r ! 1))
   \<Longrightarrow> \<exists>cid'. upstream_loop rs (Some p) acc =
         Inr (cid', acc @ map upstream_of (filter (\<lambda>r. \<not> th r) rs))"
proof (induction rs arbitrary: p acc)
  case Nil
  then show ?case by simp
next
  case (Cons r rs)
  from Cons.prems have rest:
    "\<forall>r\<in>set rs. \<not> th r \<longrightarrow> 7 \<le> length (tds r) \<and> isdigit (strip (tds r ! 1))" by simp
  show ?case
  proof (cases "th r")
    case True
    with Cons.IH[OF Cons.prems(1) rest, of acc] show ?thesis by (simp add: upstream_step)
  next
    case False
    with Cons.prems have len: "7 \<le> length (tds r)" and dg: "isdigit (strip (tds r ! 1))"
      by simp_all
    from Cons.IH[OF dg rest, of "acc @ [upstream_of r]"]
    show ?thesis using False len Cons.prems(1) by (simp add: upstream_step)
  qed
qed

lemma parse_soup_short:
  assumes "length tables < 3"
  shows "snd (parse_soup tables) = Inl (Raised IndexError)"
proof (cases "length tables \<le> 1")
  case True
  then show ?thesis by (simp add: parse_soup_eq)
next
  case False
  with assms have two: "length tables \<le> 2" by simp
  show ?thesis
  proof (cases "downstream_loop (tables ! 1) None []")
    case (Inl e)
    from downstream_loop_error[OF Inl] Inl False show ?thesis by (simp add: parse_soup_eq)
  next
    case (Inr p)
    with False two show ?thesis by (simp add: parse_soup_eq split: prod.split)
  qed
qed

lemma page_bs_own: "page_bs page tables (repair page) = tables"
  by (simp add: page_bs_def)

lemma parse_html_page:
  "parse_html_sb8200 (page_bs page tables) page =
     bindC (logC INFO ''Parsing HTML for modem model sb8200'') (\<lambda>_. parse_soup tables)"
  by (simp add: parse_html_sb8200_def page_bs_own)

text \<open>
  C3, as stated: \<open>parse_html_sb8200\<close> never raises, also on a page where the downstream
  or the upstream table is absent, and returns what the other table gave. On a page
  without tables the index \<open>[1]\<close> raises IndexError; on the page cut off after the
  downstream table the index \<open>[2]\<close> raises IndexError and the two downstream records are
  lost with it.
\<close>

theorem parse_raises_without_tables:
  "snd (parse_html_sb8200 (page_bs ''<html></html>'' []) ''<html></html>'') =
     Inl (Raised IndexError) \<and>
   page_bs downstream_only_page downstream_only_tables (repair downstream_only_page) =
     [startup_table, [header_row, down_row, down_row_other]] \<and>
   snd (parse_html_sb8200 (page_bs downstream_only_page downstream_only_tables)
          downstream_only_page) = Inl (Raised IndexError)"
proof -
  have none: "snd (bindC (logC INFO ''Parsing HTML for modem model sb8200'')
                (\<lambda>_. parse_soup [])) = Inl (Raised IndexError)" by code_simp
  have two: "snd (bindC (logC INFO ''Parsing HTML for modem model sb8200'')
                (\<lambda>_. parse_soup downstream_only_tables)) = Inl (Raised IndexError)" by code_simp
  have tabs: "downstream_only_tables = [startup_table, [header_row, down_row, down_row_other]]"
    by (simp add: downstream_only_tables_def)
  from none two tabs show ?thesis by (simp add: parse_html_page page_bs_own)
qed

text \<open>
  C3, amended. When BeautifulSoup finds fewer than three tables in the repaired page,
  \<open>parse_html_sb8200\<close> raises IndexError. When it finds at least three, and in the
  downstream table every row without header cell has a first cell, eight cells when that
  cell is a string of digits, and the last such row exists and has a string of digits
  there, and in the upstream table every row without header cell has seven cells and a
  string of digits as channel id, then \<open>parse_html_sb8200\<close> returns: the downstream list
  holds, in the order of the table, one record for each row without header cell whose
  first cell is a string of digits, the upstream list one record for each row without
  header cell; an upstream table without such a row gives an empty upstream list, which
  is logged as an error, and the downstream list is returned all the same.
\<close>

theorem parse_result_on_channel_rows:
  assumes "bs (repair html) = tables"
  shows "(length tables < 3 \<longrightarrow> snd (parse_html_sb8200 bs html) = Inl (Raised IndexError)) \<and>
    (3 \<le> length tables \<and>
     (\<forall>r\<in>set (tables ! 1). \<not> th r \<longrightarrow>
         tds r \<noteq> [] \<and> (isdigit (strip (tds r ! 0)) \<longrightarrow> 8 \<le> length (tds r))) \<and>
     filter (\<lambda>r. \<not> th r) (tables ! 1) \<noteq> [] \<and>
     isdigit (strip (tds (last (filter (\<lambda>r. \<not> th r) (tables ! 1))) ! 0)) \<and>
     (\<forall>r\<in>set (tables ! 2). \<not> th r \<longrightarrow> 7 \<le> length (tds r) \<and> isdigit (strip (tds r ! 1)))
     \<longrightarrow> parse_html_sb8200 bs html =
           (Log INFO ''Parsing HTML for modem model sb8200'' #
              parse_log \<lparr>downstream = map downstream_of
                            (filter (\<lambda>r. \<not> th r \<and> isdigit (strip (tds r ! 0))) (tables ! 1)),
                         upstream = map upstream_of (filter (\<lambda>r. \<not> th r) (tables ! 2))\<rparr>,
            Inr \<lparr>downstream = map downstream_of
                    (filter (\<lambda>r. \<not> th r \<and> isdigit (strip (tds r ! 0))) (tables ! 1)),
                 upstream = map upstream_of (filter (\<lambda>r. \<not> th r) (tables ! 2))\<rparr>))"
proof (intro conjI impI)
  assume "length tables < 3"
  from parse_soup_short[OF this] obtain tr where "parse_soup tables = (tr, Inl (Raised IndexError))"
    by (cases "parse_soup tables") simp
  with assms show "snd (parse_html_sb8200 bs html) = Inl (Raised IndexError)"
    by (simp add: parse_html_sb8200_def bindC_def logC_def)
next
  assume h: "3 \<le> length tables \<and>
     (\<forall>r\<in>set (tables ! 1). \<not> th r \<longrightarrow>
         tds r \<noteq> [] \<and> (isdigit (strip (tds r ! 0)) \<longrightarrow> 8 \<le> length (tds r))) \<and>
     filter (\<lambda>r. \<not> th r) (tables ! 1) \<noteq> [] \<and>
     isdigit (strip (tds (last (filter (\<lambda>r. \<not> th r) (tables ! 1))) ! 0)) \<and>
     (\<forall>r\<in>set (tables ! 2). \<not> th r \<longrightarrow> 7 \<le> length (tds r) \<and> isdigit (strip (tds r ! 1)))"
  then have len: "3 \<le> length tables"
    and drows: "\<forall>r\<in>set (tables ! 1). \<not> th r \<longrightarrow>
         tds r \<noteq> [] \<and> (isdigit (strip (tds r ! 0)) \<longrightarrow> 8 \<le> length (tds r))"
    and ne: "filter (\<lambda>r. \<not> th r) (tables ! 1) \<noteq> []"
    and lastd: "isdigit (strip (tds (last (filter (\<lambda>r. \<not> th r) (tables ! 1))) ! 0))"
    and urows: "\<forall>r\<in>set (tables ! 2). \<not> th r \<longrightarrow> 7 \<le> length (tds r) \<and> isdigit (strip (tds r ! 1))"
    by simp_all
  from downstream_loop_rows[OF drows, of None "[]"] ne have
    d: "downstream_loop (tables ! 1) None [] =
          Inr (Some (strip (tds (last (filter (\<lambda>r. \<not> th r) (tables ! 1))) ! 0)),
               map downstream_of (filter (\<lambda>r. \<not> th r \<and> isdigit (strip (tds r ! 0))) (tables ! 1)))"
    by simp
  from upstream_loop_rows[OF lastd urows, of "[]"] obtain cid' where
    u: "upstream_loop (tables ! 2)
          (Some (strip (tds (last (filter (\<lambda>r. \<not> th r) (tables ! 1))) ! 0))) [] =
          Inr (cid', map upstream_of (filter (\<lambda>r. \<not> th r) (tables ! 2)))"
    by auto
  from len d u have
    "parse_soup tables =
       (parse_log \<lparr>downstream = map downstream_of
                      (filter (\<lambda>r. \<not> th r \<and> isdigit (strip (tds r ! 0))) (tables ! 1)),
                   upstream = map upstream_of (filter (\<lambda>r. \<not> th r) (tables ! 2))\<rparr>,
        Inr \<lparr>downstream = map downstream_of
                (filter (\<lambda>r. \<not> th r \<and> isdigit (strip (tds r ! 0))) (tables ! 1)),
             upstream = map upstream_of (filter (\<lambda>r. \<not> th r) (tables ! 2))\<rparr>)"
    by (simp add: parse_soup_eq)
  with assms show "parse_html_sb8200 bs html =
           (Log INFO ''Parsing HTML for modem model sb8200'' #
              parse_log \<lparr>downstream = map downstream_of
                            (filter (\<lambda>r. \<not> th r \<and> isdigit (strip (tds r ! 0))) (tables ! 1)),
                         upstream = map upstream_of (filter (\<lambda>r. \<not> th r) (tables ! 2))\<rparr>,
            Inr \<lparr>downstream = map downstream_of
                    (filter (\<lambda>r. \<not> th r \<and> isdigit (strip (tds r ! 0))) (tables ! 1)),
                 upstream = map upstream_of (filter (\<lambda>r. \<not> th r) (tables ! 2))\<rparr>)"
    by (simp add: parse_html_sb8200_def bindC_def logC_def)
qed

theorem parse_result_on_channel_rows_witness:
  "page_bs upstream_idle_page upstream_idle_tables (repair upstream_idle_page) =
     [startup_table, [header_row, down_row, down_row_other], [header_row]] \<and>
   parse_html_sb8200 (page_bs upstream_idle_page upstream_idle_tables) upstream_idle_page =
     ([Log INFO ''Parsing HTML for modem model sb8200'',
       Log DEBUG ''downstream stats: %s'',
       Log DEBUG ''upstream stats: %s'',
       Log ERROR ''Failed to get any upstream stats! Probably a parsing issue in parse_html_sb8200()''],
      Inr \<lparr>downstream =
             [\<lparr>d_channel_id = ''1'', modulation = ''QAM256'', d_frequency = ''600000000'',
               d_power = ''1.2'', snr = ''38.1'', corrected = ''10'', uncorrectables = ''0''\<rparr>,
              \<lparr>d_channel_id = ''33'', modulation = ''OFDM PLC'', d_frequency = ''722000000'',
               d_power = ''2.0'', snr = ''37.0'', corrected = ''5'', uncorrectables = ''0''\<rparr>],
           upstream = []\<rparr>) \<and>
   sample_bs (repair status_page) =
     [startup_table, [header_row, down_row, down_row_other], [header_row, up_row]] \<and>
   snd (parse_html_sb8200 sample_bs status_page) =
      Inr \<lparr>downstream =
             [\<lparr>d_channel_id = ''1'', modulation = ''QAM256'', d_frequency = ''600000000'',
               d_power = ''1.2'', snr = ''38.1'', corrected = ''10'', uncorrectables = ''0''\<rparr>,
              \<lparr>d_channel_id = ''33'', modulation = ''OFDM PLC'', d_frequency = ''722000000'',
               d_power = ''2.0'', snr = ''37.0'', corrected = ''5'', uncorrectables = ''0''\<rparr>],
           upstream = [\<lparr>u_channel_id = ''2'', channel_type = ''OFDMA'',
                         u_frequency = ''36500000'', u_power = ''44.0''\<rparr>]\<rparr> \<and>
   length (page_bs downstream_only_page downstream_only_tables (repair downstream_only_page)) = 2 \<and>
   snd (parse_html_sb8200 (page_bs downstream_only_page downstream_only_tables)
          downstream_only_page) = Inl (Raised IndexError)"
proof -
  have v1: "page_bs upstream_idle_page upstream_idle_tables (repair upstream_idle_page) =
              upstream_idle_tables" by (rule page_bs_own)
  have h1: "3 \<le> length upstream_idle_tables \<and>
     (\<forall>r\<in>set (upstream_idle_tables ! 1). \<not> th r \<longrightarrow>
         tds r \<noteq> [] \<and> (isdigit (strip (tds r ! 0)) \<longrightarrow> 8 \<le> length (tds r))) \<and>
     filter (\<lambda>r. \<not> th r) (upstream_idle_tables ! 1) \<noteq> [] \<and>
     isdigit (strip (tds (last (filter (\<lambda>r. \<not> th r) (upstream_idle_tables ! 1))) ! 0)) \<and>
     (\<forall>r\<in>set (upstream_idle_tables ! 2).
         \<not> th r \<longrightarrow> 7 \<le> length (tds r) \<and> isdigit (strip (tds r ! 1)))" by code_simp
  have e1: "(Log INFO ''Parsing HTML for modem model sb8200'' #
              parse_log \<lparr>downstream = map downstream_of
                            (filter (\<lambda>r. \<not> th r \<and> isdigit (strip (tds r ! 0)))
                               (upstream_idle_tables ! 1)),
                         upstream = map upstream_of (filter (\<lambda>r. \<not> th r)
                               (upstream_idle_tables ! 2))\<rparr>,
            (Inr \<lparr>downstream = map downstream_of
                    (filter (\<lambda>r. \<not> th r \<and> isdigit (strip (tds r ! 0)))
                       (upstream_idle_tables ! 1)),
                 upstream = map upstream_of (filter (\<lambda>r. \<not> th r)
                       (upstream_idle_tables ! 2))\<rparr> :: stop + stats)) =
     ([Log INFO ''Parsing HTML for modem model sb8200'',
       Log DEBUG ''downstream stats: %s'',
       Log DEBUG ''upstream stats: %s'',
       Log ERROR ''Failed to get any upstream stats! Probably a parsing issue in parse_html_sb8200()''],
      Inr \<lparr>downstream =
             [\<lparr>d_channel_id = ''1'', modulation = ''QAM256'', d_frequency = ''600000000'',
               d_power = ''1.2'', snr = ''38.1'', corrected = ''10'', uncorrectables = ''0''\<rparr>,
              \<lparr>d_channel_id = ''33'', modulation = ''OFDM PLC'', d_frequency = ''722000000'',
               d_power = ''2.0'', snr = ''37.0'', corrected = ''5'', uncorrectables = ''0''\<rparr>],
           upstream = []\<rparr>)" by code_simp
  note r1 = trans[OF parse_result_on_channel_rows
                       [of "page_bs upstream_idle_page upstream_idle_tables" upstream_idle_page
                           upstream_idle_tables, OF v1, THEN conjunct2, THEN mp, OF h1] e1]
  have v2: "sample_bs (repair status_page) = status_tables"
    unfolding sample_bs_def by (rule page_bs_own)
  have h2: "3 \<le> length status_tables \<and>
     (\<forall>r\<in>set (status_tables ! 1). \<not> th r \<longrightarrow>
         tds r \<noteq> [] \<and> (isdigit (strip (tds r ! 0)) \<longrightarrow> 8 \<le> length (tds r))) \<and>
     filter (\<lambda>r. \<not> th r) (status_tables ! 1) \<noteq> [] \<and>
     isdigit (strip (tds (last (filter (\<lambda>r. \<not> th r) (status_tables ! 1))) ! 0)) \<and>
     (\<forall>r\<in>set (status_tables ! 2).
         \<not> th r \<longrightarrow> 7 \<le> length (tds r) \<and> isdigit (strip (tds r ! 1)))" by code_simp
  have e2: "(Inr \<lparr>downstream = map downstream_of
                    (filter (\<lambda>r. \<not> th r \<and> isdigit (strip (tds r ! 0))) (status_tables ! 1)),
                 upstream = map upstream_of (filter (\<lambda>r. \<not> th r) (status_tables ! 2))\<rparr>
             :: stop + stats) =
      Inr \<lparr>downstream =
             [\<lparr>d_channel_id = ''1'', modulation = ''QAM256'', d_frequency = ''600000000'',
               d_power = ''1.2'', snr = ''38.1'', corrected = ''10'', uncorrectables = ''0''\<rparr>,
              \<lparr>d_channel_id = ''33'', modulation = ''OFDM PLC'', d_frequency = ''722000000'',
               d_power = ''2.0'', snr = ''37.0'', corrected = ''5'', uncorrectables = ''0''\<rparr>],
           upstream = [\<lparr>u_channel_id = ''2'', channel_type = ''OFDMA'',
                         u_frequency = ''36500000'', u_power = ''44.0''\<rparr>]\<rparr>" by code_simp
  note p2 = parse_result_on_channel_rows
              [of sample_bs status_page status_tables, OF v2, THEN conjunct2, THEN mp, OF h2]
  have r2: "snd (parse_html_sb8200 sample_bs status_page) =
      Inr \<lparr>downstream =
             [\<lparr>d_channel_id = ''1'', modulation = ''QAM256'', d_frequency = ''600000000'',
               d_power = ''1.2'', snr = ''38.1'', corrected = ''10'', uncorrectables = ''0''\<rparr>,
              \<lparr>d_channel_id = ''33'', modulation = ''OFDM PLC'', d_frequency = ''722000000'',
               d_power = ''2.0'', snr = ''37.0'', corrected = ''5'', uncorrectables = ''0''\<rparr>],
           upstream = [\<lparr>u_channel_id = ''2'', channel_type = ''OFDMA'',
                         u_frequency = ''36500000'', u_power = ''44.0''\<rparr>]\<rparr>"
    unfolding p2 snd_conv by (rule e2)
  have v3: "page_bs downstream_only_page downstream_only_tables (repair downstream_only_page) =
              downstream_only_tables" by (rule page_bs_own)
  have l3: "length downstream_only_tables < 3" by (simp add: downstream_only_tables_def)
  note r3 = parse_result_on_channel_rows
              [of "page_bs downstream_only_page downstream_only_tables" downstream_only_page
                  downstream_only_tables, OF v3, THEN conjunct1, THEN mp, OF l3]
  have t1: "upstream_idle_tables =
              [startup_table, [header_row, down_row, down_row_other], [header_row]]"
    by (simp add: upstream_idle_tables_def)
  have t2: "status_tables =
              [startup_table, [header_row, down_row, down_row_other], [header_row, up_row]]"
    by (simp add: status_tables_def)
  have t3: "length downstream_only_tables = 2" by (simp add: downstream_only_tables_def)
  show ?thesis
    unfolding v1 v2 v3 by (intro conjI t1 r1 t2 r2 t3 r3)
qed

subsection \<open>Facts about replace, strip and the search for a pattern\<close>

lemma prefix_longer: "length p \<le> length u \<Longrightarrow> prefix p (u @ r) = prefix p u"
proof
  assume len: "length p \<le> length u" and "prefix p (u @ r)"
  then obtain zs where "u @ r = p @ zs" by (auto simp: prefix_def)
  then have "take (length p) (u @ r) = p" by simp
  with len have "take (length p) u = p" by simp
  then show "prefix p u" by (metis take_is_prefix)
next
  assume "prefix p u"
  then show "prefix p (u @ r)" by (simp add: prefix_prefix)
qed

lemma replace_count_absent:
  "\<not> contains (p # ps) s \<Longrightarrow> replace_count (p # ps) new n s = s"
proof (induction s arbitrary: n)
  case Nil
  then show ?case by (cases n) simp_all
next
  case (Cons c cs)
  then show ?case by (cases n) auto
qed

lemma starts_in_iff: "starts_in pat a = (\<exists>i<length a. prefix pat (drop i (a @ pat)))"
  by (auto simp: starts_in_def list_ex_iff)

lemma starts_in_Cons:
  "\<not> starts_in pat (x # a) \<Longrightarrow> \<not> prefix pat (x # a @ pat) \<and> \<not> starts_in pat a"
proof
  assume h: "\<not> starts_in pat (x # a)"
  then have "\<not> prefix pat (drop 0 ((x # a) @ pat))" unfolding starts_in_iff by (metis length_greater_0_conv list.distinct(1))
  then show "\<not> prefix pat (x # a @ pat)" by simp
  show "\<not> starts_in pat a"
  proof
    assume "starts_in pat a"
    then obtain i where "i < length a" "prefix pat (drop i (a @ pat))" unfolding starts_in_iff by blast
    then have "Suc i < length (x # a)" "prefix pat (drop (Suc i) ((x # a) @ pat))" by simp_all
    with h show False unfolding starts_in_iff by blast
  qed
qed

lemma replace_count_first:
  "\<not> starts_in (p # ps) a \<Longrightarrow>
     replace_count (p # ps) new (Suc n) (a @ (p # ps) @ r) = a @ new @ replace_count (p # ps) new n r"
proof (induction a)
  case Nil
  then show ?case by simp
next
  case (Cons x a)
  from starts_in_Cons[OF Cons.prems] have np: "\<not> prefix (p # ps) (x # a @ p # ps)" and na: "\<not> starts_in (p # ps) a" by simp_all
  have "prefix (p # ps) ((x # a @ p # ps) @ r) = prefix (p # ps) (x # a @ p # ps)"
    by (rule prefix_longer) simp
  with np have "\<not> prefix (p # ps) (x # a @ (p # ps) @ r)" by simp
  with Cons.IH[OF na] show ?case by auto
qed





subsection \<open>Claims about the markup repair and the label clean-up\<close>

text \<open>
  C7, as stated: the repair pass replaces at most the first two occurrences of the defect
  pattern, leaves everything else unchanged, and is idempotent. On a page with three
  occurrences the first pass repairs two and a second pass repairs the third: the pass
  applied to its own output changes it.
\<close>

theorem repair_not_idempotent:
  "repair (repair (defect_pattern @ defect_pattern @ defect_pattern)) \<noteq>
     repair (defect_pattern @ defect_pattern @ defect_pattern)"
  by code_simp

text \<open>
  C7, amended: the repair pass replaces the first two occurrences of the defect pattern,
  found from the left without overlap, and leaves everything else unchanged: a page
  without the pattern is returned as it is; with one occurrence, the first from the left,
  and none after it, that occurrence alone is replaced; with a first and a next occurrence
  both are replaced and the text after the second is kept whatever it holds. Applying the
  pass to its own output changes nothing when that output holds no occurrence of the
  pattern.
\<close>

theorem repair_first_two_occurrences:
  "(\<not> contains defect_pattern h \<longrightarrow> repair h = h) \<and>
   (h = a @ defect_pattern @ b \<and> \<not> starts_in defect_pattern a \<and> \<not> contains defect_pattern b
      \<longrightarrow> repair h = a @ defect_repaired @ b) \<and>
   (h = a @ defect_pattern @ b @ defect_pattern @ c \<and> \<not> starts_in defect_pattern a
      \<and> \<not> starts_in defect_pattern b
      \<longrightarrow> repair h = a @ defect_repaired @ b @ defect_repaired @ c) \<and>
   (\<not> contains defect_pattern (repair h) \<longrightarrow> repair (repair h) = repair h)"
proof -
  obtain p ps where pat: "defect_pattern = p # ps" by (simp add: defect_pattern_def)
  have none: "\<And>s n. \<not> contains defect_pattern s \<Longrightarrow> replace_count defect_pattern defect_repaired n s = s"
    unfolding pat by (rule replace_count_absent)
  have first: "\<And>a r n. \<not> starts_in defect_pattern a \<Longrightarrow>
      replace_count defect_pattern defect_repaired (Suc n) (a @ defect_pattern @ r) =
        a @ defect_repaired @ replace_count defect_pattern defect_repaired n r"
    unfolding pat by (rule replace_count_first)
  have two: "(2::nat) = Suc (Suc 0)" by simp
  show ?thesis
  proof (intro conjI impI)
    assume "\<not> contains defect_pattern h"
    then show "repair h = h" by (simp add: repair_def none)
  next
    assume "h = a @ defect_pattern @ b \<and> \<not> starts_in defect_pattern a \<and> \<not> contains defect_pattern b"
    then have h: "h = a @ defect_pattern @ b" and sa: "\<not> starts_in defect_pattern a"
      and cb: "\<not> contains defect_pattern b" by simp_all
    show "repair h = a @ defect_repaired @ b"
      unfolding repair_def two h by (simp only: first[OF sa] none[OF cb])
  next
    assume "h = a @ defect_pattern @ b @ defect_pattern @ c \<and> \<not> starts_in defect_pattern a
      \<and> \<not> starts_in defect_pattern b"
    then have h: "h = a @ defect_pattern @ b @ defect_pattern @ c"
      and sa: "\<not> starts_in defect_pattern a" and sb: "\<not> starts_in defect_pattern b" by simp_all
    show "repair h = a @ defect_repaired @ b @ defect_repaired @ c"
      unfolding repair_def two h by (simp only: first[OF sa] first[OF sb] replace_count.simps(1))
  next
    assume "\<not> contains defect_pattern (repair h)"
    then show "repair (repair h) = repair h" by (simp add: repair_def none)
  qed
qed

theorem repair_first_two_occurrences_witness:
  "repair sample_html =
     ''<table><tr><th colspan=8><strong>Downstream '' @ defect_repaired @
     ''<tr><td>1</td></tr></table><table><tr><th colspan=7><strong>Upstream '' @ defect_repaired @
     ''</table>'' \<and>
   repair (repair sample_html) = repair sample_html"
proof -
  have h: "sample_html = ''<table><tr><th colspan=8><strong>Downstream '' @ defect_pattern @
     ''<tr><td>1</td></tr></table><table><tr><th colspan=7><strong>Upstream '' @ defect_pattern @
     ''</table>''" by code_simp
  have a: "\<not> starts_in defect_pattern ''<table><tr><th colspan=8><strong>Downstream ''" by code_simp
  have b: "\<not> starts_in defect_pattern
     ''<tr><td>1</td></tr></table><table><tr><th colspan=7><strong>Upstream ''" by code_simp
  have c: "\<not> contains defect_pattern (repair sample_html)" by code_simp
  from repair_first_two_occurrences[of sample_html
         "''<table><tr><th colspan=8><strong>Downstream ''"
         "''<tr><td>1</td></tr></table><table><tr><th colspan=7><strong>Upstream ''"
         "''</table>''"] h a b c
  show ?thesis by blast
qed







subsection \<open>Claims about the normalizer\<close>

lemma downstream_point_time: "downstream_point now d = Inr p \<Longrightarrow> time p = now"
  by (auto simp: downstream_point_def bindE_def split: sum.splits)

lemma upstream_point_time: "upstream_point now u = Inr p \<Longrightarrow> time p = now"
  by (auto simp: upstream_point_def bindE_def split: sum.splits)

lemma downstream_series_time:
  "downstream_series now ds acc = Inr series \<Longrightarrow> \<forall>p\<in>set acc. time p = now
     \<Longrightarrow> \<forall>p\<in>set series. time p = now"
proof (induction ds arbitrary: acc)
  case Nil then show ?case by simp
next
  case (Cons d ds)
  from Cons.prems(1) obtain p where p: "downstream_point now d = Inr p"
    and r: "downstream_series now ds (acc @ [p]) = Inr series"
    by (auto simp: bindE_def split: sum.splits)
  from downstream_point_time[OF p] Cons.prems(2) have "\<forall>q\<in>set (acc @ [p]). time q = now" by simp
  from Cons.IH[OF r this] show ?case .
qed

lemma upstream_series_time:
  "upstream_series now us acc = Inr series \<Longrightarrow> \<forall>p\<in>set acc. time p = now
     \<Longrightarrow> \<forall>p\<in>set series. time p = now"
proof (induction us arbitrary: acc)
  case Nil then show ?case by simp
next
  case (Cons u us)
  from Cons.prems(1) obtain p where p: "upstream_point now u = Inr p"
    and r: "upstream_series now us (acc @ [p]) = Inr series"
    by (auto simp: bindE_def split: sum.splits)
  from upstream_point_time[OF p] Cons.prems(2) have "\<forall>q\<in>set (acc @ [p]). time q = now" by simp
  from Cons.IH[OF r this] show ?case .
qed

lemma send_to_influx_eq:
  "send_to_influx sts config now ok =
     (case downstream_series now (downstream sts) [] of
        Inl e \<Rightarrow> ([Log INFO ''Sending stats to InfluxDB (%s)''], Inl (Raised e))
      | Inr s1 \<Rightarrow>
         (case upstream_series now (upstream sts) s1 of
            Inl e \<Rightarrow> ([Log INFO ''Sending stats to InfluxDB (%s)''], Inl (Raised e))
          | Inr series \<Rightarrow>
              if ok then
                ([Log INFO ''Sending stats to InfluxDB (%s)'', InfluxWrite (influx_bucket config) series,
                  Log INFO ''Successfully wrote data to InfluxDB'',
                  Log DEBUG ''Influx series sent to db:'', Log DEBUG ''<series>''], Inr ())
              else
                ([Log INFO ''Sending stats to InfluxDB (%s)'', InfluxWrite (influx_bucket config) series,
                  Log ERROR ''<class Exception>'', Log ERROR ''Failed To Write To InfluxDB''], Inr ())))"
  by (auto simp: send_to_influx_def bindC_def liftE_def raiseC_def returnC_def logC_def catchC_def
        influx_write_def split: sum.splits)

text \<open>
  C9. Every record of a batch that \<open>send_to_influx\<close> hands to the sink, downstream and
  upstream alike, carries the time read once at the start of the call.
\<close>

theorem one_timestamp_per_batch:
  "InfluxWrite bucket series \<in> set (fst (send_to_influx sts config current_time ok))
     \<Longrightarrow> \<forall>p\<in>set series. time p = current_time"
proof -
  assume w: "InfluxWrite bucket series \<in> set (fst (send_to_influx sts config current_time ok))"
  then obtain s1 where d: "downstream_series current_time (downstream sts) [] = Inr s1"
    and u: "upstream_series current_time (upstream sts) s1 = Inr series"
    by (auto simp: send_to_influx_eq split: sum.splits if_splits)
  from downstream_series_time[OF d] have "\<forall>p\<in>set s1. time p = current_time" by simp
  from upstream_series_time[OF u this] show ?thesis .
qed

theorem one_timestamp_per_batch_witness:
  "InfluxWrite ''cable_modem_stats''
      (hd (written_batches (fst (send_to_influx sample_stats default_config ''2021-03-04T05:06:07Z'' True))))
     \<in> set (fst (send_to_influx sample_stats default_config ''2021-03-04T05:06:07Z'' True)) \<and>
   length (hd (written_batches
      (fst (send_to_influx sample_stats default_config ''2021-03-04T05:06:07Z'' True)))) = 3 \<and>
   list_all (\<lambda>p. time p = ''2021-03-04T05:06:07Z'')
     (hd (written_batches (fst (send_to_influx sample_stats default_config ''2021-03-04T05:06:07Z'' True))))"
proof -
  have m: "InfluxWrite ''cable_modem_stats''
      (hd (written_batches (fst (send_to_influx sample_stats default_config ''2021-03-04T05:06:07Z'' True))))
     \<in> set (fst (send_to_influx sample_stats default_config ''2021-03-04T05:06:07Z'' True))"
    by code_simp
  have n: "length (hd (written_batches
      (fst (send_to_influx sample_stats default_config ''2021-03-04T05:06:07Z'' True)))) = 3"
    by code_simp
  from one_timestamp_per_batch[OF m] m n show ?thesis by (simp add: list_all_iff)
qed


















subsection \<open>Claims about authentication and the fetch\<close>

lemma get_credential_snd:
  "snd (get_credential config net) =
     (case modem_password config of
        None \<Rightarrow> Inl (Raised TypeError)
      | Some password \<Rightarrow>
          if \<not> list_all is_ascii (modem_username config @ '':'' @ password)
          then Inl (Raised UnicodeEncodeError)
          else (case net of
              RequestFailed \<Rightarrow> Inr None
            | Response resp \<Rightarrow>
                if modem_new_auth config \<and> session_id resp = None then Inr None
                else if status_code resp \<noteq> 200 then Inr None
                else if contains ''Password:'' (resp_text resp) then Inr None
                else Inr (Some \<lparr>token = resp_text resp,
                                 cookie = (if modem_new_auth config then session_id resp else None)\<rparr>)))"
  by (simp add: get_credential_def credential_exchange_def requests_get_def bindC_def catchC_def
        logC_def returnC_def raiseC_def Let_def split: reply.split option.split)

text \<open>
  C8. When the request raises, the status is not 200 or the body holds \<open>Password:\<close>,
  \<open>get_credential\<close> returns \<open>None\<close>, in both authentication modes; the request is made at
  all when the configured password is set and the pair \<open>username:password\<close> is ASCII
  (otherwise the function raises before the request). Whatever the configuration, such a
  reply never gives a credential.
\<close>

theorem rejected_authentication_gives_no_credential:
  "(modem_password config = Some password \<and>
    list_all is_ascii (modem_username config @ '':'' @ password) \<and> auth_rejected net
      \<longrightarrow> snd (get_credential config net) = Inr None) \<and>
   (auth_rejected net \<longrightarrow> snd (get_credential config net) \<noteq> Inr (Some c))"
  by (auto simp: get_credential_snd auth_rejected_def split: reply.splits option.splits)

theorem rejected_authentication_gives_no_credential_witness:
  "snd (get_credential basic_auth_config login_reply) = Inr None \<and>
   snd (get_credential session_auth_config login_reply_with_cookie) = Inr None \<and>
   snd (get_credential basic_auth_config error_reply) = Inr None \<and>
   snd (get_credential session_auth_config RequestFailed) = Inr None \<and>
   snd (get_credential default_config login_reply) \<noteq> Inr (Some \<lparr>token = ''t'', cookie = None\<rparr>)"
proof -
  have p1: "modem_password basic_auth_config = Some ''secret''" by code_simp
  have p2: "modem_password session_auth_config = Some ''secret''" by code_simp
  have a1: "list_all is_ascii (modem_username basic_auth_config @ '':'' @ ''secret'')" by code_simp
  have a2: "list_all is_ascii (modem_username session_auth_config @ '':'' @ ''secret'')" by code_simp
  have r1: "auth_rejected login_reply" by code_simp
  have r2: "auth_rejected login_reply_with_cookie" by code_simp
  have r3: "auth_rejected error_reply" by code_simp
  have r4: "auth_rejected RequestFailed" by code_simp
  from rejected_authentication_gives_no_credential[of basic_auth_config "''secret''" login_reply] p1 a1 r1
  have c1: "snd (get_credential basic_auth_config login_reply) = Inr None" by blast
  from rejected_authentication_gives_no_credential[of session_auth_config "''secret''" login_reply_with_cookie]
    p2 a2 r2
  have c2: "snd (get_credential session_auth_config login_reply_with_cookie) = Inr None" by blast
  from rejected_authentication_gives_no_credential[of basic_auth_config "''secret''" error_reply] p1 a1 r3
  have c3: "snd (get_credential basic_auth_config error_reply) = Inr None" by blast
  from rejected_authentication_gives_no_credential[of session_auth_config "''secret''" RequestFailed] p2 a2 r4
  have c4: "snd (get_credential session_auth_config RequestFailed) = Inr None" by blast
  from rejected_authentication_gives_no_credential[of default_config _ login_reply
         "\<lparr>token = ''t'', cookie = None\<rparr>"] r1
  have c5: "snd (get_credential default_config login_reply) \<noteq> Inr (Some \<lparr>token = ''t'', cookie = None\<rparr>)"
    by blast
  from c1 c2 c3 c4 c5 show ?thesis by blast
qed

lemma get_html_snd:
  "modem_auth_required config \<longrightarrow> credential \<noteq> None \<Longrightarrow>
   snd (get_html config credential net) =
     (case net of
        RequestFailed \<Rightarrow> Inr None
      | Response resp \<Rightarrow>
          if status_code resp \<noteq> 200 then Inr None
          else (case content_utf8 resp of
              None \<Rightarrow> Inr None
            | Some status_html \<Rightarrow>
                if contains ''Password:'' status_html then Inr None else Inr (Some status_html)))"
  by (cases credential)
     (simp_all add: get_html_def html_exchange_def requests_get_def subscript_def bindC_def catchC_def
        logC_def returnC_def raiseC_def split: reply.split option.split)

lemma get_html_login_log:
  "modem_auth_required config \<longrightarrow> credential \<noteq> None \<Longrightarrow> net = Response resp \<Longrightarrow>
   status_code resp = 200 \<Longrightarrow> content_utf8 resp = Some body \<Longrightarrow> contains ''Password:'' body \<Longrightarrow>
   Log ERROR ''Authentication error, received login page.'' \<in> set (fst (get_html config credential net))"
  by (cases credential)
     (simp_all add: get_html_def html_exchange_def requests_get_def subscript_def bindC_def catchC_def
        logC_def returnC_def raiseC_def)

text \<open>
  C5, as stated: a fetched body that holds \<open>Password:\<close> is reported as an outcome
  distinct from a transport or status failure, so that the orchestrator can tell them
  apart. \<open>get_html\<close> returns \<open>None\<close> for the login page, for a status 500 and for a
  failed request alike, and the pass of the main loop ends the same way.
\<close>

theorem login_page_not_distinguished:
  "snd (get_html default_config None login_reply) = snd (get_html default_config None error_reply) \<and>
   snd (get_html default_config None login_reply) = snd (get_html default_config None RequestFailed) \<and>
   snd (cycle (default_config\<lparr>exit_on_html_error := False\<rparr>) (sample_env login_reply) True None) =
     snd (cycle (default_config\<lparr>exit_on_html_error := False\<rparr>) (sample_env error_reply) True None)"
  by code_simp

text \<open>
  C5, amended: a body fetched with status 200 that holds \<open>Password:\<close> is not returned as
  data: \<open>get_html\<close> returns \<open>None\<close>, the value it also returns when the request fails or
  the status is not 200; what tells the login page apart is the error line in the log.
\<close>

theorem login_page_is_no_data:
  assumes "net = Response resp" and "status_code resp = 200" and "content_utf8 resp = Some body"
    and "contains ''Password:'' body" and "modem_auth_required config \<longrightarrow> credential \<noteq> None"
  shows "snd (get_html config credential net) = Inr None \<and>
         snd (get_html config credential RequestFailed) = Inr None \<and>
         snd (get_html config credential (Response (resp\<lparr>status_code := 500\<rparr>))) = Inr None \<and>
         Log ERROR ''Authentication error, received login page.''
           \<in> set (fst (get_html config credential net))"
  using assms get_html_login_log[OF assms(5) assms(1) assms(2) assms(3) assms(4)]
  by (simp add: get_html_snd)

theorem login_page_is_no_data_witness:
  "snd (get_html default_config None login_reply) = Inr None \<and>
   snd (get_html default_config None RequestFailed) = Inr None \<and>
   Log ERROR ''Authentication error, received login page.''
     \<in> set (fst (get_html default_config None login_reply))"
proof -
  have h1: "login_reply = Response \<lparr>status_code = 200, reason = ''OK'',
     resp_text = ''<html><body>Username: <input> Password: <input></body></html>'',
     content_utf8 = Some ''<html><body>Username: <input> Password: <input></body></html>'',
     session_id = None\<rparr>" by (simp add: login_reply_def)
  have h4: "contains ''Password:'' ''<html><body>Username: <input> Password: <input></body></html>''"
    by code_simp
  have h5: "modem_auth_required default_config \<longrightarrow> (None :: credential option) \<noteq> None" by code_simp
  from login_page_is_no_data[OF h1 _ _ h4 h5] show ?thesis by simp
qed

subsection \<open>Claims about the exits of the main loop\<close>
































end
